theory Spec2Isabelle
  imports Complex_Main "HOL-Library.Word" "HOL-Library.AList"
begin

text \<open>
  The adaptive page sizing of md2pdf: the parser of image headers, the computation of the
  image footprints, the measurement of the content extent, its correction, and the
  resizing of the rendered page. The layout engine and the PDF library are outside of
  the model: what they report (the nodes of the dry run, the pages of the rendered
  document) are arguments of the functions that consume it.
\<close>

section \<open>Image header parser (src/images/loader.ts)\<close>

text \<open>
  An \<open>ArrayBuffer\<close> is a list of bytes. A \<open>DataView\<close> read that does not lie
  inside the buffer throws \<open>RangeError\<close>; the model returns it as \<open>Inl RangeError\<close>.
  Multi-byte reads are big-endian (the default of \<open>getUint16\<close> and \<open>getUint32\<close>).
\<close>

type_synonym byte = "8 word"

datatype error = RangeError

record ImageDimensions =
  width :: int
  height :: int

definition getUint16 :: "byte list \<Rightarrow> nat \<Rightarrow> error + nat" where
  "getUint16 view byteOffset =
     (if byteOffset + 2 \<le> length view
      then Inr (unat (view ! byteOffset) * 256 + unat (view ! (byteOffset + 1)))
      else Inl RangeError)"

definition getUint32 :: "byte list \<Rightarrow> nat \<Rightarrow> error + nat" where
  "getUint32 view byteOffset =
     (if byteOffset + 4 \<le> length view
      then Inr (unat (view ! byteOffset) * 16777216 + unat (view ! (byteOffset + 1)) * 65536
                + unat (view ! (byteOffset + 2)) * 256 + unat (view ! (byteOffset + 3)))
      else Inl RangeError)"

text \<open>\<open>getPngDimensions\<close>: signature check at offset 0, then width at 16 and height at 20.\<close>

definition getPngDimensions :: "byte list \<Rightarrow> error + ImageDimensions option" where
  "getPngDimensions buffer =
     (case getUint32 buffer 0 of
        Inl e \<Rightarrow> Inl e
      | Inr sig \<Rightarrow>
          if sig \<noteq> 0x89504e47 then Inr None
          else (case getUint32 buffer 16 of
                  Inl e \<Rightarrow> Inl e
                | Inr w \<Rightarrow>
                    (case getUint32 buffer 20 of
                       Inl e \<Rightarrow> Inl e
                     | Inr h \<Rightarrow> Inr (Some \<lparr>width = int w, height = int h\<rparr>))))"

text \<open>
  \<open>getJpegDimensions\<close>. One pass through the body of the \<open>while\<close> loop either leaves
  the function (\<open>return\<close>, \<open>break\<close> followed by \<open>return null\<close>, or a thrown
  \<open>RangeError\<close>) or goes on with a new offset (\<open>continue\<close>, or the end of the body).
\<close>

definition isSOF :: "nat \<Rightarrow> bool" where
  "isSOF marker \<longleftrightarrow>
     (0xffc0 \<le> marker \<and> marker \<le> 0xffc3) \<or>
     (0xffc5 \<le> marker \<and> marker \<le> 0xffc7) \<or>
     (0xffc9 \<le> marker \<and> marker \<le> 0xffcb) \<or>
     (0xffcd \<le> marker \<and> marker \<le> 0xffcf)"

datatype loopStep = Next nat | Leave "error + ImageDimensions option"

definition jpegBody :: "byte list \<Rightarrow> nat \<Rightarrow> loopStep" where
  "jpegBody view offset0 =
     (case getUint16 view offset0 of
        Inl e \<Rightarrow> Leave (Inl e)
      | Inr marker \<Rightarrow>
          (let offset = offset0 + 2 in
           if isSOF marker then
             (case getUint16 view (offset + 3) of
                Inl e \<Rightarrow> Leave (Inl e)
              | Inr h \<Rightarrow>
                  (case getUint16 view (offset + 5) of
                     Inl e \<Rightarrow> Leave (Inl e)
                   | Inr w \<Rightarrow> Leave (Inr (Some \<lparr>width = int w, height = int h\<rparr>))))
           else if marker = 0xffd9 then Leave (Inr None)
           else if marker = 0xffd8 then Next offset
           else if 0xffd0 \<le> marker \<and> marker \<le> 0xffd7 then Next offset
           else (case getUint16 view offset of
                   Inl e \<Rightarrow> Leave (Inl e)
                 | Inr len \<Rightarrow> Next (offset + len))))"

text \<open>
  The loop, written without assuming that it ends: \<open>None\<close> stands for a scan that
  never leaves the loop.
\<close>

partial_function (option) jpegWhile :: "byte list \<Rightarrow> nat \<Rightarrow> (error + ImageDimensions option) option" where
  "jpegWhile view offset =
     (if offset < length view then
        (case jpegBody view offset of
           Leave r \<Rightarrow> Some r
         | Next offset' \<Rightarrow> jpegWhile view offset')
      else Some (Inr None))"

text \<open>The same loop as a total function; the offset grows in every pass.\<close>

function jpegScan :: "byte list \<Rightarrow> nat \<Rightarrow> error + ImageDimensions option" where
  "jpegScan view offset =
     (if offset < length view then
        (case jpegBody view offset of
           Leave r \<Rightarrow> r
         | Next offset' \<Rightarrow> jpegScan view offset')
      else Inr None)"
  by pat_completeness auto
termination
  by (relation "measure (\<lambda>(view, offset). length view - offset)")
     (auto simp: jpegBody_def Let_def split: sum.splits if_splits)

declare jpegScan.simps [simp del]

definition getJpegDimensions :: "byte list \<Rightarrow> error + ImageDimensions option" where
  "getJpegDimensions buffer =
     (case getUint16 buffer 0 of
        Inl e \<Rightarrow> Inl e
      | Inr sig \<Rightarrow> if sig \<noteq> 0xffd8 then Inr None else jpegScan buffer 2)"

definition getImageDimensions :: "byte list \<Rightarrow> string \<Rightarrow> error + ImageDimensions option" where
  "getImageDimensions buffer mimeType =
     (if mimeType = ''image/png'' then getPngDimensions buffer
      else if mimeType = ''image/jpeg'' then getJpegDimensions buffer
      else Inr None)"

text \<open>
  \<open>loadLocalImage\<close> and \<open>loadRemoteImage\<close> from the point where the bytes are there:
  the call of \<open>getImageDimensions\<close> stands inside \<open>try\<close>, and the \<open>catch\<close> clause
  returns \<open>null\<close> for the image. \<open>dimensions ?? undefined\<close> keeps the parser's answer.
\<close>

record ImageData =
  dataId :: string
  dataDimensions :: "ImageDimensions option"

definition loadImageBytes :: "string \<Rightarrow> byte list \<Rightarrow> string \<Rightarrow> ImageData option" where
  "loadImageBytes ident buffer mimeType =
     (case getImageDimensions buffer mimeType of
        Inl e \<Rightarrow> None
      | Inr dims \<Rightarrow> Some \<lparr>dataId = ident, dataDimensions = dims\<rparr>)"

text \<open>The loop of \<open>loadImages\<close> that fills \<open>dimensions\<close>, keyed by image id.\<close>

fun loadImages_dimensions :: "ImageData option list \<Rightarrow> (string \<rightharpoonup> ImageDimensions) \<Rightarrow> (string \<rightharpoonup> ImageDimensions)" where
  "loadImages_dimensions [] acc = acc"
| "loadImages_dimensions (None # loadedImages) acc = loadImages_dimensions loadedImages acc"
| "loadImages_dimensions (Some img # loadedImages) acc =
     loadImages_dimensions loadedImages
       (case dataDimensions img of Some d \<Rightarrow> acc(dataId img \<mapsto> d) | None \<Rightarrow> acc)"

section \<open>Configuration (src/config)\<close>

text \<open>
  JavaScript numbers are modelled by exact rationals; rounding of the floating-point
  operations is not part of the model. Margins are \<open>[left, top, right, bottom]\<close>.
\<close>

type_synonym margins = "rat \<times> rat \<times> rat \<times> rat"

definition margin1 :: "margins \<Rightarrow> rat" where
  "margin1 m = (case m of (l, t, r, b) \<Rightarrow> t)"

definition margin3 :: "margins \<Rightarrow> rat" where
  "margin3 m = (case m of (l, t, r, b) \<Rightarrow> b)"

definition STYLES_margins_image :: margins where
  "STYLES_margins_image = (0, 10, 0, 10)"

text \<open>\<open>mm v = Math.round(v * 2.83465)\<close>; \<open>Math.round\<close> rounds a half upwards.\<close>

definition mm :: "rat \<Rightarrow> rat" where
  "mm v = of_int \<lfloor>v * (283465 / 100000) + 1 / 2\<rfloor>"

definition MAX_PAGE_HEIGHT :: rat where
  "MAX_PAGE_HEIGHT = mm 10000"

section \<open>Image extent calculator (src/pdf/generator.ts)\<close>

definition IMAGE_FIT_WIDTH :: rat where
  "IMAGE_FIT_WIDTH = 500"

definition IMAGE_FIT_HEIGHT :: rat where
  "IMAGE_FIT_HEIGHT = 400"

text \<open>
  The quotient \<open>width / height\<close> of two JavaScript numbers is not always a number that
  HOL's division gives: a zero divisor yields \<open>Infinity\<close>, \<open>-Infinity\<close> or \<open>NaN\<close>.
  Every comparison with \<open>NaN\<close> is false, and a finite number divided by an infinity
  is zero. In \<open>calculateImageHeight\<close> the quotient \<open>IMAGE_FIT_WIDTH / aspectRatio\<close> is
  computed only when \<open>aspectRatio > fitAspect\<close> holds, that is for a finite ratio above
  \<open>fitAspect\<close> or for \<open>Infinity\<close>.
\<close>

datatype jsnum = Finite rat | PosInfinity | NegInfinity | NaN

definition js_div :: "rat \<Rightarrow> rat \<Rightarrow> jsnum" where
  "js_div a b =
     (if b \<noteq> 0 then Finite (a / b)
      else if 0 < a then PosInfinity
      else if a < 0 then NegInfinity
      else NaN)"

fun js_gt :: "jsnum \<Rightarrow> rat \<Rightarrow> bool" where
  "js_gt (Finite r) c = (c < r)"
| "js_gt PosInfinity c = True"
| "js_gt NegInfinity c = False"
| "js_gt NaN c = False"

definition calculateImageHeight :: "ImageDimensions \<Rightarrow> rat" where
  "calculateImageHeight dimensions =
     (let aspectRatio = js_div (of_int (width dimensions)) (of_int (height dimensions));
          fitAspect = IMAGE_FIT_WIDTH / IMAGE_FIT_HEIGHT
      in if js_gt aspectRatio fitAspect
         then (case aspectRatio of Finite r \<Rightarrow> IMAGE_FIT_WIDTH / r | _ \<Rightarrow> 0)
         else min (of_int (height dimensions)) IMAGE_FIT_HEIGHT)"

text \<open>
  The content tree of pdfmake: a value of the union type \<open>Content\<close> is a plain string
  or an object with the key \<open>text\<close> (both \<open>Text\<close> here), an object with one of the
  keys \<open>image\<close>, \<open>stack\<close>, \<open>columns\<close>, \<open>ul\<close>, \<open>ol\<close>, \<open>table\<close> (with its
  \<open>body\<close> rows) or \<open>canvas\<close>, or an array of contents. An image node is what \<open>renderImage\<close>
  builds: the image id (the key \<open>image\<close>, here \<open>imageId\<close>), the fit box and the margin.
\<close>

record ContentImage =
  imageId :: string
  fit :: "rat \<times> rat"
  margin :: margins

datatype Content =
    Text
  | Image ContentImage
  | Stack "Content list"
  | Columns "Content list"
  | Ul "Content list"
  | Ol "Content list"
  | Table "Content list list"
  | Canvas
  | Array "Content list"

text \<open>
  \<open>calculateImageHeights\<close>: the closure \<open>processContent\<close> writes into the object
  \<open>heights\<close>, here an association list passed along (an assignment to a key that is
  present replaces its value in place). The traversal follows \<open>stack\<close> and \<open>columns\<close>.
\<close>

fun processItem :: "(string \<rightharpoonup> ImageDimensions) \<Rightarrow> Content \<Rightarrow> (string \<times> rat) list \<Rightarrow> (string \<times> rat) list"
  and processContent :: "(string \<rightharpoonup> ImageDimensions) \<Rightarrow> Content list \<Rightarrow> (string \<times> rat) list \<Rightarrow> (string \<times> rat) list"
where
  "processItem imageDimensions (Image item) heights =
     (case imageDimensions (imageId item) of
        Some dims \<Rightarrow>
          (let renderedHeight = calculateImageHeight dims;
               totalHeight = renderedHeight + margin1 STYLES_margins_image + margin3 STYLES_margins_image
           in AList.update (imageId item) totalHeight heights)
      | None \<Rightarrow> heights)"
| "processItem imageDimensions (Stack items) heights = processContent imageDimensions items heights"
| "processItem imageDimensions (Columns items) heights = processContent imageDimensions items heights"
| "processItem imageDimensions Text heights = heights"
| "processItem imageDimensions (Ul items) heights = heights"
| "processItem imageDimensions (Ol items) heights = heights"
| "processItem imageDimensions (Table body) heights = heights"
| "processItem imageDimensions Canvas heights = heights"
| "processItem imageDimensions (Array items) heights = heights"
| "processContent imageDimensions [] heights = heights"
| "processContent imageDimensions (item # items) heights =
     processContent imageDimensions items (processItem imageDimensions item heights)"

definition calculateImageHeights :: "Content list \<Rightarrow> (string \<rightharpoonup> ImageDimensions) \<Rightarrow> (string \<times> rat) list" where
  "calculateImageHeights content imageDimensions = processContent imageDimensions content []"

section \<open>Measurement driver (src/pdf/generator.ts)\<close>

text \<open>
  The layout engine calls \<open>pageBreakBefore\<close> once for every node it places. Of a node
  the callback reads \<open>startPosition\<close> (with \<open>pageNumber\<close> and \<open>top\<close>), \<open>image\<close> and
  \<open>height\<close>; each may be absent. The variables \<open>maxY\<close>, \<open>pageCount\<close> and
  \<open>measuredImageHeights\<close> that the callback closes over are the state it updates. The
  callback always answers \<open>false\<close>, which the state does not record. The keys \<open>top\<close>,
  \<open>image\<close> and \<open>height\<close> are \<open>topOffset\<close>, \<open>nodeImage\<close> and \<open>nodeHeight\<close> here;
  an image key that is the empty string counts as absent, as it does in the source.
\<close>

record Position =
  pageNumber :: rat
  topOffset :: rat

record Node =
  startPosition :: "Position option"
  nodeImage :: "string option"
  nodeHeight :: "rat option"

record MeasureState =
  maxY :: rat
  pageCount :: rat
  measuredImageHeights :: "(string \<times> rat) list"

definition nodeBottom :: "rat \<Rightarrow> Node \<Rightarrow> Position \<Rightarrow> rat" where
  "nodeBottom pageHeightUsable currentNode pos =
     (let pageOffset = (pageNumber pos - 1) * pageHeightUsable
      in pageOffset + topOffset pos + (case nodeHeight currentNode of Some h \<Rightarrow> h | None \<Rightarrow> 0))"

definition pageBreakBefore :: "rat \<Rightarrow> Node \<Rightarrow> MeasureState \<Rightarrow> MeasureState" where
  "pageBreakBefore pageHeightUsable currentNode st =
     (let st1 = (case startPosition currentNode of
                   Some pos \<Rightarrow>
                     if pageCount st < pageNumber pos then st\<lparr>pageCount := pageNumber pos\<rparr> else st
                 | None \<Rightarrow> st);
          st2 = (case nodeImage currentNode of
                   Some img \<Rightarrow>
                     if img \<noteq> [] then
                       (let imageTop = (case startPosition currentNode of
                                          Some pos \<Rightarrow> topOffset pos
                                        | None \<Rightarrow> 0)
                        in st1\<lparr>measuredImageHeights :=
                                 AList.update img imageTop (measuredImageHeights st1)\<rparr>)
                     else st1
                 | None \<Rightarrow> st1)
      in (case startPosition currentNode of
            Some pos \<Rightarrow> st2\<lparr>maxY := max (maxY st2) (nodeBottom pageHeightUsable currentNode pos)\<rparr>
          | None \<Rightarrow> st2))"

record MeasurementResult =
  resultMaxY :: rat
  imageTopPositions :: "(string \<times> rat) list"

text \<open>
  \<open>measureContentHeight\<close>: the nodes that the dry run of the layout engine reports, in
  the order of the calls, are an argument of the model. The result
  \<open>{ maxY, measuredImageHeights }\<close> is the record \<open>MeasurementResult\<close> with the fields
  \<open>resultMaxY\<close> and \<open>imageTopPositions\<close> (the map holds the top positions).
\<close>

definition measureContentHeight :: "margins \<Rightarrow> Node list \<Rightarrow> MeasurementResult" where
  "measureContentHeight pageMargins observed =
     (let pageHeightUsable = MAX_PAGE_HEIGHT - margin1 pageMargins - margin3 pageMargins;
          st = foldl (\<lambda>st currentNode. pageBreakBefore pageHeightUsable currentNode st)
                 \<lparr>maxY = 0, pageCount = 0, measuredImageHeights = []\<rparr> observed
      in \<lparr>resultMaxY = maxY st, imageTopPositions = measuredImageHeights st\<rparr>)"

section \<open>Extent corrector and target height (generatePDF)\<close>

definition totalImageHeight :: "(string \<times> rat) list \<Rightarrow> rat" where
  "totalImageHeight imageHeights = foldl (\<lambda>a b. a + b) 0 (map snd imageHeights)"

definition maxExpectedBottom :: "(string \<times> rat) list \<Rightarrow> (string \<times> rat) list \<Rightarrow> rat" where
  "maxExpectedBottom imagePositions imageHeights =
     foldl (\<lambda>m (imageId, topPosition).
              (let imageHeight = (case map_of imageHeights imageId of Some h \<Rightarrow> h | None \<Rightarrow> 0);
                   expectedBottom = topPosition + imageHeight
               in max m expectedBottom))
           0 imagePositions"

text \<open>The two variables that the branches assign: \<open>(contentHeight, imageHeightCorrection)\<close>.\<close>

definition determineContentHeight :: "MeasurementResult \<Rightarrow> (string \<times> rat) list \<Rightarrow> rat \<times> rat" where
  "determineContentHeight measurement imageHeights =
     (let imagePositions = imageTopPositions measurement;
          hasImagePositions = (0 < length imagePositions)
      in if hasImagePositions \<and> 0 < totalImageHeight imageHeights then
           (let imageHeightCorrection =
                  (if resultMaxY measurement < maxExpectedBottom imagePositions imageHeights
                   then maxExpectedBottom imagePositions imageHeights - resultMaxY measurement
                   else 0)
            in (resultMaxY measurement + imageHeightCorrection, imageHeightCorrection))
         else if 0 < totalImageHeight imageHeights then
           (let imageHeightCorrection = totalImageHeight imageHeights * (22 / 100)
            in (resultMaxY measurement + imageHeightCorrection, imageHeightCorrection))
         else (resultMaxY measurement, 0))"

definition contentHeight :: "MeasurementResult \<Rightarrow> (string \<times> rat) list \<Rightarrow> rat" where
  "contentHeight measurement imageHeights = fst (determineContentHeight measurement imageHeights)"

definition imageHeightCorrection :: "MeasurementResult \<Rightarrow> (string \<times> rat) list \<Rightarrow> rat" where
  "imageHeightCorrection measurement imageHeights = snd (determineContentHeight measurement imageHeights)"

definition targetHeight :: "margins \<Rightarrow> rat \<Rightarrow> rat" where
  "targetHeight pageMargins contentHeight' =
     (let topMargin = margin1 pageMargins; bottomMargin = margin3 pageMargins; bottomPadding = 25
      in topMargin + contentHeight' + bottomMargin + bottomPadding)"

text \<open>Passes 1 and 2 of \<open>generatePDF\<close> up to the target height.\<close>

definition generatePDF_targetHeight ::
  "Content list \<Rightarrow> margins \<Rightarrow> (string \<rightharpoonup> ImageDimensions) \<Rightarrow> Node list \<Rightarrow> rat" where
  "generatePDF_targetHeight content pageMargins imageDimensions observed =
     (let measurement = measureContentHeight pageMargins observed;
          imageHeights = calculateImageHeights content imageDimensions
      in targetHeight pageMargins (contentHeight measurement imageHeights))"

section \<open>Canvas resizer (generatePDF, pass 3)\<close>

text \<open>
  A page of the loaded document: its size and the translations applied to its content,
  in the order of the calls of \<open>translateContent\<close>.
\<close>

record Page =
  pageWidth :: rat
  pageHeight :: rat
  contentShifts :: "(rat \<times> rat) list"

definition setSize :: "rat \<Rightarrow> rat \<Rightarrow> Page \<Rightarrow> Page" where
  "setSize w h page = page\<lparr>pageWidth := w, pageHeight := h\<rparr>"

definition translateContent :: "rat \<Rightarrow> rat \<Rightarrow> Page \<Rightarrow> Page" where
  "translateContent x y page = page\<lparr>contentShifts := contentShifts page @ [(x, y)]\<rparr>"

text \<open>\<open>while (pdfDoc.getPageCount() > 1) pdfDoc.removePage(1)\<close>\<close>

fun removeExtraPages :: "Page list \<Rightarrow> Page list" where
  "removeExtraPages (p # q # rest) = removeExtraPages (p # rest)"
| "removeExtraPages pages = pages"

text \<open>
  Pass 3 of \<open>generatePDF\<close>: the first page, if there is one, gets the target height and
  its content is translated by \<open>targetHeight - MAX_PAGE_HEIGHT\<close>; then the pages after
  the first are removed.
\<close>

definition resizePages :: "rat \<Rightarrow> Page list \<Rightarrow> Page list" where
  "resizePages targetHeight' pages =
     removeExtraPages
       (case pages of
          [] \<Rightarrow> []
        | firstPage # rest \<Rightarrow>
            translateContent 0 (targetHeight' - MAX_PAGE_HEIGHT)
              (setSize (pageWidth firstPage) targetHeight' firstPage) # rest)"

section \<open>Image nodes of the renderer (renderImage)\<close>

record ImageInfo =
  infoId :: string
  href :: string
  alt :: string

record RenderContext =
  basePath :: string
  japaneseFont :: "string option"
  images :: "ImageInfo list"

record ImageToken =
  tokenHref :: string
  tokenText :: string

text \<open>The decimal digits of a number, as the template literal \<open>`img_${n}`\<close> prints it.\<close>

fun natToString :: "nat \<Rightarrow> string" where
  "natToString n =
     (if n < 10 then [''0123456789'' ! n]
      else natToString (n div 10) @ [''0123456789'' ! (n mod 10)])"

declare natToString.simps [simp del]

definition renderImage :: "ImageToken \<Rightarrow> RenderContext \<Rightarrow> Content \<times> RenderContext" where
  "renderImage token context =
     (let ident = ''img_'' @ natToString (length (images context));
          context' = context\<lparr>images := images context @
                        [\<lparr>infoId = ident, href = tokenHref token, alt = tokenText token\<rparr>]\<rparr>
      in (Image \<lparr>imageId = ident, fit = (500, 400), margin = STYLES_margins_image\<rparr>, context'))"

text \<open>
  The tokens of the markdown lexer, by their \<open>type\<close>: heading (depth, inline tokens),
  paragraph (inline tokens), list (\<open>ordered\<close>, items), code (\<open>lang\<close>, empty when
  absent, and \<open>text\<close>), table (the inline tokens of the header cells and of the cells
  of each row), blockquote (block tokens), hr, space, image (with its \<open>tokens\<close> array
  when it has one), and any other type, with its \<open>tokens\<close> array when it has one. A
  list item has \<open>task\<close>, \<open>checked\<close> and, when present, \<open>tokens\<close>.

  \<open>renderInlineTokens\<close> builds the value of a \<open>text\<close> key and does not write to the
  context; what it returns is not part of the model, a text node is \<open>Text\<close>. The same
  holds for the check box that \<open>renderList\<close> puts in front of the text of a task item.
\<close>

datatype Token =
    HeadingToken nat "Token list"
  | ParagraphToken "Token list"
  | ListToken bool "ListItem list"
  | CodeToken string string
  | TableToken "Token list list" "Token list list list"
  | BlockquoteToken "Token list"
  | HrToken
  | SpaceToken
  | ImageTok ImageToken "Token list option"
  | OtherToken "Token list option"
and ListItem = ListItem bool bool "Token list option"

text \<open>
  \<open>renderList\<close>: the items of the list; an item with exactly one piece of content is
  that piece, any other item is a stack. Neither \<open>renderList\<close> nor the inline renderer
  it calls writes to the context, so the context is not passed along here.
\<close>

fun renderList :: "bool \<Rightarrow> ListItem list \<Rightarrow> Content"
  and renderListItems :: "ListItem list \<Rightarrow> Content list"
  and renderItemTokens :: "Token list \<Rightarrow> Content list"
where
  "renderList ordered items =
     (if ordered then Ol (renderListItems items) else Ul (renderListItems items))"
| "renderListItems [] = []"
| "renderListItems (ListItem task checked itemTokens # items) =
     (let content = (case itemTokens of Some ts \<Rightarrow> renderItemTokens ts | None \<Rightarrow> [])
      in (case content of [c] \<Rightarrow> c | _ \<Rightarrow> Stack content)) # renderListItems items"
| "renderItemTokens [] = []"
| "renderItemTokens (ParagraphToken inline # ts) = Text # renderItemTokens ts"
| "renderItemTokens (ListToken ordered items # ts) = renderList ordered items # renderItemTokens ts"
| "renderItemTokens (HeadingToken depth inline # ts) = Text # renderItemTokens ts"
| "renderItemTokens (BlockquoteToken inner # ts) = Text # renderItemTokens ts"
| "renderItemTokens (ImageTok token (Some inline) # ts) = Text # renderItemTokens ts"
| "renderItemTokens (OtherToken (Some inline) # ts) = Text # renderItemTokens ts"
| "renderItemTokens (t # ts) = renderItemTokens ts"

definition renderCodeBlock :: "string \<Rightarrow> string \<Rightarrow> Content" where
  "renderCodeBlock lang text = Stack ((if lang \<noteq> [] then [Text] else []) @ [Table [ [Text] ]])"

definition renderTable :: "Token list list \<Rightarrow> Token list list list \<Rightarrow> Content" where
  "renderTable header rows =
     (let headerRow = map (\<lambda>cell. Text) header;
          bodyRows = map (\<lambda>row. map (\<lambda>cell. Text) row) rows
      in Table (headerRow # bodyRows))"

definition renderParagraph :: "Token list \<Rightarrow> RenderContext \<Rightarrow> Content \<times> RenderContext" where
  "renderParagraph tokens context =
     (case tokens of
        [ImageTok token inline] \<Rightarrow> renderImage token context
      | _ \<Rightarrow> (Text, context))"

text \<open>
  \<open>renderBlockToken\<close> (\<open>None\<close> is \<open>null\<close>), with the loop of \<open>renderBlockquote\<close>
  and of \<open>renderTokens\<close> over a list of tokens, which keeps what is not \<open>null\<close>.
\<close>

fun renderBlockToken :: "Token \<Rightarrow> RenderContext \<Rightarrow> Content option \<times> RenderContext"
  and renderBlockTokens :: "Token list \<Rightarrow> RenderContext \<Rightarrow> Content list \<times> RenderContext"
where
  "renderBlockToken (HeadingToken depth inline) context = (Some Text, context)"
| "renderBlockToken (ParagraphToken inline) context =
     (case renderParagraph inline context of (c, context') \<Rightarrow> (Some c, context'))"
| "renderBlockToken (ListToken ordered items) context = (Some (renderList ordered items), context)"
| "renderBlockToken (CodeToken lang text) context = (Some (renderCodeBlock lang text), context)"
| "renderBlockToken (TableToken header rows) context = (Some (renderTable header rows), context)"
| "renderBlockToken (BlockquoteToken inner) context =
     (case renderBlockTokens inner context of
        (content, context') \<Rightarrow> (Some (Stack [Columns [Canvas, Stack content]]), context'))"
| "renderBlockToken HrToken context = (Some Canvas, context)"
| "renderBlockToken SpaceToken context = (None, context)"
| "renderBlockToken (ImageTok token inline) context =
     (case renderImage token context of (c, context') \<Rightarrow> (Some c, context'))"
| "renderBlockToken (OtherToken (Some inline)) context = (Some Text, context)"
| "renderBlockToken (OtherToken None) context = (None, context)"
| "renderBlockTokens [] context = ([], context)"
| "renderBlockTokens (t # ts) context =
     (case renderBlockToken t context of
        (rendered, context') \<Rightarrow>
          (case renderBlockTokens ts context' of
             (content, context'') \<Rightarrow>
               ((case rendered of Some c \<Rightarrow> c # content | None \<Rightarrow> content), context'')))"

definition renderTokens :: "Token list \<Rightarrow> RenderContext \<Rightarrow> Content list \<times> RenderContext" where
  "renderTokens tokens context = renderBlockTokens tokens context"

section \<open>Notions of the specification\<close>

text \<open>
  The image nodes of a content tree: the ids of those at top level or below \<open>stack\<close>
  and \<open>columns\<close> nodes only, and the nodes anywhere, also inside lists, table cells
  and arrays.
\<close>

fun stackedImagesOf :: "Content \<Rightarrow> string list"
  and stackedImages :: "Content list \<Rightarrow> string list"
where
  "stackedImagesOf (Image item) = [imageId item]"
| "stackedImagesOf (Stack items) = stackedImages items"
| "stackedImagesOf (Columns items) = stackedImages items"
| "stackedImagesOf Text = []"
| "stackedImagesOf (Ul items) = []"
| "stackedImagesOf (Ol items) = []"
| "stackedImagesOf (Table body) = []"
| "stackedImagesOf Canvas = []"
| "stackedImagesOf (Array items) = []"
| "stackedImages [] = []"
| "stackedImages (item # items) = stackedImagesOf item @ stackedImages items"

fun allImageNodesOf :: "Content \<Rightarrow> ContentImage list"
  and allImageNodes :: "Content list \<Rightarrow> ContentImage list"
  and allImageNodesRows :: "Content list list \<Rightarrow> ContentImage list"
where
  "allImageNodesOf (Image item) = [item]"
| "allImageNodesOf (Stack items) = allImageNodes items"
| "allImageNodesOf (Columns items) = allImageNodes items"
| "allImageNodesOf Text = []"
| "allImageNodesOf (Ul items) = allImageNodes items"
| "allImageNodesOf (Ol items) = allImageNodes items"
| "allImageNodesOf (Table body) = allImageNodesRows body"
| "allImageNodesOf Canvas = []"
| "allImageNodesOf (Array items) = allImageNodes items"
| "allImageNodes [] = []"
| "allImageNodes (item # items) = allImageNodesOf item @ allImageNodes items"
| "allImageNodesRows [] = []"
| "allImageNodesRows (row # rows) = allImageNodes row @ allImageNodesRows rows"

text \<open>
  The dimension records that \<open>processContent\<close> hands to \<open>calculateImageHeight\<close>, in
  the order of the calls.
\<close>

fun fitRuleCallsOf :: "(string \<rightharpoonup> ImageDimensions) \<Rightarrow> Content \<Rightarrow> ImageDimensions list"
  and fitRuleCalls :: "(string \<rightharpoonup> ImageDimensions) \<Rightarrow> Content list \<Rightarrow> ImageDimensions list"
where
  "fitRuleCallsOf imageDimensions (Image item) =
     (case imageDimensions (imageId item) of Some dims \<Rightarrow> [dims] | None \<Rightarrow> [])"
| "fitRuleCallsOf imageDimensions (Stack items) = fitRuleCalls imageDimensions items"
| "fitRuleCallsOf imageDimensions (Columns items) = fitRuleCalls imageDimensions items"
| "fitRuleCallsOf imageDimensions Text = []"
| "fitRuleCallsOf imageDimensions (Ul items) = []"
| "fitRuleCallsOf imageDimensions (Ol items) = []"
| "fitRuleCallsOf imageDimensions (Table body) = []"
| "fitRuleCallsOf imageDimensions Canvas = []"
| "fitRuleCallsOf imageDimensions (Array items) = []"
| "fitRuleCalls imageDimensions [] = []"
| "fitRuleCalls imageDimensions (item # items) =
     fitRuleCallsOf imageDimensions item @ fitRuleCalls imageDimensions items"

text \<open>
  The bottom edges of the observed nodes that carry a position, by the formula of the
  specification: \<open>(pageIndex - 1) * pageUsableHeight + top + height\<close>, the height read as
  0 when absent, with \<open>pageUsableHeight = canvasHeight - topMargin - bottomMargin\<close>.
\<close>

definition spec_bottomEdges :: "rat \<Rightarrow> rat \<Rightarrow> rat \<Rightarrow> Node list \<Rightarrow> rat list" where
  "spec_bottomEdges canvasHeight topMargin bottomMargin observed =
     concat (map (\<lambda>n. case startPosition n of
                         Some p \<Rightarrow>
                           [(pageNumber p - 1) * (canvasHeight - topMargin - bottomMargin)
                              + topOffset p + (case nodeHeight n of Some h \<Rightarrow> h | None \<Rightarrow> 0)]
                       | None \<Rightarrow> [])
                 observed)"

text \<open>
  An image node with the fit box of the height computation, and a content list all of
  whose image nodes have it and stand at top level or below \<open>stack\<close> and \<open>columns\<close>
  nodes only.
\<close>

definition fitsBox :: "ContentImage \<Rightarrow> bool" where
  "fitsBox node \<longleftrightarrow> fit node = (IMAGE_FIT_WIDTH, IMAGE_FIT_HEIGHT)"

definition wellPlaced :: "Content list \<Rightarrow> bool" where
  "wellPlaced content \<longleftrightarrow>
     list_all fitsBox (allImageNodes content) \<and> map imageId (allImageNodes content) = stackedImages content"

text \<open>A dimension record whose fields are unsigned 32-bit integers.\<close>

definition unsigned32 :: "ImageDimensions \<Rightarrow> bool" where
  "unsigned32 d \<longleftrightarrow> 0 \<le> width d \<and> width d < 4294967296 \<and> 0 \<le> height d \<and> height d < 4294967296"

section \<open>The oversized canvas\<close>

lemma MAX_PAGE_HEIGHT_value: "MAX_PAGE_HEIGHT = 28347"
  by (simp add: MAX_PAGE_HEIGHT_def mm_def)

section \<open>Fit rule\<close>

text \<open>
  C1. For an image with positive pixel dimensions the rendered height follows the fit
  rule with the fit box 500 by 400: if \<open>pixelWidth / pixelHeight > 500 / 400\<close> it is
  \<open>500 / (pixelWidth / pixelHeight)\<close>, otherwise \<open>min(pixelHeight, 400)\<close>. A 1000 by 500
  image yields 250 and a 400 by 1000 image yields 400.
\<close>

theorem fit_rule:
  assumes "0 < w" and "0 < h"
  shows "calculateImageHeight \<lparr>width = w, height = h\<rparr> =
           (if 500 / 400 < (of_int w :: rat) / of_int h
            then 500 / (of_int w / of_int h)
            else min (of_int h) 400)
         \<and> calculateImageHeight \<lparr>width = 1000, height = 500\<rparr> = 250
         \<and> calculateImageHeight \<lparr>width = 400, height = 1000\<rparr> = 400"
  using assms
  by (simp add: calculateImageHeight_def js_div_def IMAGE_FIT_WIDTH_def IMAGE_FIT_HEIGHT_def Let_def)

theorem fit_rule_witness:
  "(0::int) < 800 \<and> (0::int) < 300 \<and> calculateImageHeight \<lparr>width = 800, height = 300\<rparr> = 375 / 2"
  using fit_rule [of 800 300] by simp

section \<open>Extent corrector\<close>

text \<open>
  C2. For every measurement result and every map of image footprints, the corrected
  extent is at least the measured \<open>maxExtent\<close>, and the correction added is never
  negative, whichever branch is taken (reconciliation with the top offsets, empirical
  fallback, no images).
\<close>

theorem corrected_extent_ge_measured:
  "resultMaxY measurement \<le> contentHeight measurement imageHeights
   \<and> 0 \<le> imageHeightCorrection measurement imageHeights
   \<and> contentHeight measurement imageHeights
       = resultMaxY measurement + imageHeightCorrection measurement imageHeights"
  by (simp add: contentHeight_def imageHeightCorrection_def determineContentHeight_def Let_def)

section \<open>Canvas resizer\<close>

lemma removeExtraPages_Cons: "removeExtraPages (p # rest) = [p]"
  by (induction rest) simp_all

lemma resizePages_Cons:
  "resizePages target (p # rest) =
     [p\<lparr>pageHeight := target, contentShifts := contentShifts p @ [(0, target - 28347)]\<rparr>]"
  by (simp add: resizePages_def removeExtraPages_Cons setSize_def translateContent_def
        MAX_PAGE_HEIGHT_value)

text \<open>
  C8 (as amended). When the rendered document has at least one page, the resizer
  translates the content of the first page by \<open>targetHeight - MAX_PAGE_HEIGHT\<close>, exactly
  once (one translation is appended to those the page had). The height of the oversized
  canvas is \<open>MAX_PAGE_HEIGHT = 28347\<close>, so for the target height 600 the translation
  is -27747.
\<close>

theorem resize_translation:
  assumes "pages \<noteq> []"
  shows "resizePages target pages =
           [(hd pages)\<lparr>pageHeight := target,
                        contentShifts := contentShifts (hd pages) @ [(0, target - MAX_PAGE_HEIGHT)]\<rparr>]
         \<and> MAX_PAGE_HEIGHT = 28347
         \<and> resizePages 600 pages =
           [(hd pages)\<lparr>pageHeight := 600,
                        contentShifts := contentShifts (hd pages) @ [(0, - 27747)]\<rparr>]"
proof -
  from assms obtain p rest where pages: "pages = p # rest"
    by (cases pages) auto
  show ?thesis
    unfolding pages by (simp add: resizePages_Cons MAX_PAGE_HEIGHT_value)
qed

theorem resize_translation_witness:
  "[\<lparr>pageWidth = 595, pageHeight = 28347, contentShifts = []\<rparr>,
    \<lparr>pageWidth = 595, pageHeight = 28347, contentShifts = []\<rparr>] \<noteq> []
   \<and> resizePages 600
        [\<lparr>pageWidth = 595, pageHeight = 28347, contentShifts = []\<rparr>,
         \<lparr>pageWidth = 595, pageHeight = 28347, contentShifts = []\<rparr>]
       = [\<lparr>pageWidth = 595, pageHeight = 600, contentShifts = [(0, - 27747)]\<rparr>]"
proof -
  have ne: "[\<lparr>pageWidth = 595, pageHeight = 28347, contentShifts = []\<rparr>,
    \<lparr>pageWidth = 595, pageHeight = 28347, contentShifts = []\<rparr>] \<noteq> []"
    by simp
  from resize_translation [OF ne, of 600, THEN conjunct2, THEN conjunct2] ne
  show ?thesis by simp
qed

text \<open>
  C8 as stated fails in its example: the oversized canvas of the code is not 28346 high,
  and for the target height 600 the content of the page is translated by -27747, not
  by -27746.
\<close>

theorem resize_example_off_by_one:
  "MAX_PAGE_HEIGHT \<noteq> 28346
   \<and> resizePages 600 [\<lparr>pageWidth = 595, pageHeight = 28347, contentShifts = []\<rparr>]
       = [\<lparr>pageWidth = 595, pageHeight = 600, contentShifts = [(0, - 27747)]\<rparr>]
   \<and> resizePages 600 [\<lparr>pageWidth = 595, pageHeight = 28347, contentShifts = []\<rparr>]
       \<noteq> [\<lparr>pageWidth = 595, pageHeight = 600, contentShifts = [(0, - 27746)]\<rparr>]"
  by (simp add: resizePages_def setSize_def translateContent_def MAX_PAGE_HEIGHT_def mm_def)

section \<open>Measurement driver\<close>

lemma maxY_pageBreakBefore:
  "maxY (pageBreakBefore u n st) =
     (case startPosition n of
        Some p \<Rightarrow> max (maxY st) ((pageNumber p - 1) * u + topOffset p
                                  + (case nodeHeight n of Some h \<Rightarrow> h | None \<Rightarrow> 0))
      | None \<Rightarrow> maxY st)"
  by (simp add: pageBreakBefore_def nodeBottom_def Let_def split: option.splits)

lemma maxY_foldl_pageBreakBefore:
  "maxY (foldl (\<lambda>st n. pageBreakBefore (c - t - b) n st) st0 observed) =
     fold max (spec_bottomEdges c t b observed) (maxY st0)"
proof (induction observed arbitrary: st0)
  case Nil
  show ?case by (simp add: spec_bottomEdges_def)
next
  case (Cons n observed)
  have "spec_bottomEdges c t b (n # observed) =
          (case startPosition n of
             Some p \<Rightarrow> [(pageNumber p - 1) * (c - t - b) + topOffset p
                           + (case nodeHeight n of Some h \<Rightarrow> h | None \<Rightarrow> 0)]
           | None \<Rightarrow> []) @ spec_bottomEdges c t b observed"
    by (simp add: spec_bottomEdges_def)
  then show ?case
    by (simp add: Cons.IH maxY_pageBreakBefore max.commute split: option.splits)
qed

lemma resultMaxY_fold:
  "resultMaxY (measureContentHeight pageMargins observed) =
     fold max (spec_bottomEdges MAX_PAGE_HEIGHT (margin1 pageMargins) (margin3 pageMargins) observed) 0"
  by (simp add: measureContentHeight_def Let_def maxY_foldl_pageBreakBefore)

text \<open>
  C6. The \<open>maxExtent\<close> of the measurement driver is the maximum, over the observed nodes
  that carry a position, of \<open>(pageNumber - 1) * (canvasHeight - topMargin - bottomMargin)
  + top + height\<close> (height 0 when absent), and it is 0 when no node is observed. The
  running maximum starts at 0, so in general it is the maximum of 0 and these bottom
  edges; it is the maximum of the bottom edges as soon as one of them is not negative,
  as it is for the offsets of a layout.
\<close>

theorem maxExtent_is_maximum:
  "resultMaxY (measureContentHeight pageMargins []) = 0
   \<and> resultMaxY (measureContentHeight pageMargins observed) =
       Max (insert 0 (set (spec_bottomEdges MAX_PAGE_HEIGHT (margin1 pageMargins) (margin3 pageMargins) observed)))
   \<and> ((\<exists>e \<in> set (spec_bottomEdges MAX_PAGE_HEIGHT (margin1 pageMargins) (margin3 pageMargins) observed). 0 \<le> e)
        \<longrightarrow> resultMaxY (measureContentHeight pageMargins observed) =
            Max (set (spec_bottomEdges MAX_PAGE_HEIGHT (margin1 pageMargins) (margin3 pageMargins) observed)))"
proof -
  let ?B = "spec_bottomEdges MAX_PAGE_HEIGHT (margin1 pageMargins) (margin3 pageMargins) observed"
  have empty: "resultMaxY (measureContentHeight pageMargins []) = 0"
    by (simp add: resultMaxY_fold spec_bottomEdges_def)
  have "Max (set (0 # ?B)) = fold max ?B 0"
    by (rule Max.set_eq_fold)
  then have general: "resultMaxY (measureContentHeight pageMargins observed) = Max (insert 0 (set ?B))"
    by (simp add: resultMaxY_fold)
  have "Max (insert 0 (set ?B)) = Max (set ?B)" if "\<exists>e \<in> set ?B. 0 \<le> e"
  proof -
    from that obtain e where e: "e \<in> set ?B" "0 \<le> e" by blast
    then have ne: "set ?B \<noteq> {}" by auto
    have "e \<le> Max (set ?B)" using e by simp
    with e have "0 \<le> Max (set ?B)" by linarith
    moreover have "Max (insert 0 (set ?B)) = max 0 (Max (set ?B))"
      using ne by simp
    ultimately show ?thesis by simp
  qed
  with empty general show ?thesis by simp
qed

theorem maxExtent_is_maximum_witness:
  "(\<exists>e \<in> set (spec_bottomEdges MAX_PAGE_HEIGHT (margin1 (40, 40, 40, 40)) (margin3 (40, 40, 40, 40))
        [\<lparr>startPosition = Some \<lparr>pageNumber = 1, topOffset = 40\<rparr>, nodeImage = None, nodeHeight = Some 17\<rparr>,
         \<lparr>startPosition = None, nodeImage = None, nodeHeight = Some 900\<rparr>,
         \<lparr>startPosition = Some \<lparr>pageNumber = 2, topOffset = 50\<rparr>, nodeImage = Some ''img_0'', nodeHeight = None\<rparr>]). 0 \<le> e)
   \<and> resultMaxY (measureContentHeight (40, 40, 40, 40)
        [\<lparr>startPosition = Some \<lparr>pageNumber = 1, topOffset = 40\<rparr>, nodeImage = None, nodeHeight = Some 17\<rparr>,
         \<lparr>startPosition = None, nodeImage = None, nodeHeight = Some 900\<rparr>,
         \<lparr>startPosition = Some \<lparr>pageNumber = 2, topOffset = 50\<rparr>, nodeImage = Some ''img_0'', nodeHeight = None\<rparr>])
       = 28317"
  using maxExtent_is_maximum [of "(40, 40, 40, 40)"
        "[\<lparr>startPosition = Some \<lparr>pageNumber = 1, topOffset = 40\<rparr>, nodeImage = None, nodeHeight = Some 17\<rparr>,
         \<lparr>startPosition = None, nodeImage = None, nodeHeight = Some 900\<rparr>,
         \<lparr>startPosition = Some \<lparr>pageNumber = 2, topOffset = 50\<rparr>, nodeImage = Some ''img_0'', nodeHeight = None\<rparr>]"]
  by (simp add: spec_bottomEdges_def MAX_PAGE_HEIGHT_value margin1_def margin3_def)

section \<open>Footprints of the images\<close>

lemma image_margins: "margin1 STYLES_margins_image + margin3 STYLES_margins_image = 20"
  by (simp add: margin1_def margin3_def STYLES_margins_image_def)

lemma map_of_processContent:
  "map_of (processItem imageDimensions item heights) k =
     (if k \<in> set (stackedImagesOf item) \<and> imageDimensions k \<noteq> None
      then Some (calculateImageHeight (the (imageDimensions k)) + 20)
      else map_of heights k)"
  "map_of (processContent imageDimensions items heights) k =
     (if k \<in> set (stackedImages items) \<and> imageDimensions k \<noteq> None
      then Some (calculateImageHeight (the (imageDimensions k)) + 20)
      else map_of heights k)"
proof (induction imageDimensions item heights and imageDimensions items heights
       rule: processItem_processContent.induct)
  case (1 imageDimensions item heights)
  show ?case
    by (cases "imageDimensions (imageId item)")
       (auto simp: Let_def update_conv' add.assoc image_margins)
qed auto

lemma stacked_subset_all:
  "set (stackedImagesOf item) \<subseteq> imageId ` set (allImageNodesOf item)"
  "set (stackedImages items) \<subseteq> imageId ` set (allImageNodes items)"
  by (induction item and items rule: stackedImagesOf_stackedImages.induct) auto

lemma processContent_no_images:
  "stackedImagesOf item = [] \<Longrightarrow> processItem imageDimensions item heights = heights"
  "stackedImages items = [] \<Longrightarrow> processContent imageDimensions items heights = heights"
  by (induction imageDimensions item heights and imageDimensions items heights
      rule: processItem_processContent.induct) auto

lemma calculateImageHeights_no_images:
  assumes "allImageNodes content = []"
  shows "calculateImageHeights content imageDimensions = []"
proof -
  from assms stacked_subset_all(2) [of content] have "stackedImages content = []" by simp
  then show ?thesis by (simp add: calculateImageHeights_def processContent_no_images)
qed

section \<open>Image nodes of the rendered tree\<close>

lemma renderList_no_images:
  "allImageNodesOf (renderList ordered items) = []"
  "allImageNodes (renderListItems items) = []"
  "allImageNodes (renderItemTokens ts) = []"
proof (induction ordered items and items and ts rule: renderList_renderListItems_renderItemTokens.induct)
  case (3 task checked itemTokens items)
  then show ?case
    by (cases itemTokens) (auto simp: Let_def split: list.splits)
qed auto

lemma allImageNodes_text: "allImageNodes (map (\<lambda>cell. Text) row) = []"
  by (induction row) simp_all

lemma allImageNodesRows_text: "allImageNodesRows (map (\<lambda>row. map (\<lambda>cell. Text) row) rows) = []"
  by (induction rows) (simp_all add: allImageNodes_text)


lemma wellPlaced_Nil: "wellPlaced []"
  by (simp add: wellPlaced_def)

lemma wellPlaced_Cons: "wellPlaced [c] \<Longrightarrow> wellPlaced cs \<Longrightarrow> wellPlaced (c # cs)"
  by (simp add: wellPlaced_def)

lemma wellPlaced_no_images: "allImageNodesOf c = [] \<Longrightarrow> stackedImagesOf c = [] \<Longrightarrow> wellPlaced [c]"
  by (simp add: wellPlaced_def)

lemma stacked_empty: "allImageNodesOf c = [] \<Longrightarrow> stackedImagesOf c = []"
  using stacked_subset_all(1) [of c] by simp

lemma wellPlaced_renderImage: "renderImage token context = (c, context') \<Longrightarrow> wellPlaced [c]"
  by (auto simp: renderImage_def Let_def wellPlaced_def fitsBox_def IMAGE_FIT_WIDTH_def IMAGE_FIT_HEIGHT_def)

lemma wellPlaced_renderParagraph: "renderParagraph inline context = (c, context') \<Longrightarrow> wellPlaced [c]"
  by (auto simp: renderParagraph_def wellPlaced_Nil wellPlaced_no_images
           split: list.splits Token.splits dest: wellPlaced_renderImage)

lemma wellPlaced_renderList: "wellPlaced [renderList ordered items]"
  by (rule wellPlaced_no_images [OF _ stacked_empty]) (rule renderList_no_images)+

lemma wellPlaced_renderCodeBlock: "wellPlaced [renderCodeBlock lang text]"
  by (simp add: renderCodeBlock_def wellPlaced_def)

lemma wellPlaced_renderTable: "wellPlaced [renderTable header rows]"
  by (simp add: renderTable_def wellPlaced_def allImageNodes_text allImageNodesRows_text)

lemma wellPlaced_blockquote: "wellPlaced content \<Longrightarrow> wellPlaced [Stack [Columns [Canvas, Stack content]]]"
  by (simp add: wellPlaced_def)

lemma wellPlaced_render:
  "renderBlockToken t ctx = (rendered, ctx') \<Longrightarrow>
     (case rendered of Some c \<Rightarrow> wellPlaced [c] | None \<Rightarrow> True)"
  "renderBlockTokens ts ctx = (content, ctx') \<Longrightarrow> wellPlaced content"
proof (induction t ctx and ts ctx arbitrary: rendered ctx' and content ctx'
       rule: renderBlockToken_renderBlockTokens.induct)
  case (1 depth inline ctx)
  then show ?case by (auto simp: wellPlaced_def)
next
  case (2 inline ctx)
  then show ?case by (auto split: prod.splits dest: wellPlaced_renderParagraph)
next
  case (3 ordered items ctx)
  then show ?case by (auto simp: wellPlaced_renderList simp del: renderList.simps)
next
  case (4 lang code ctx)
  then show ?case by (auto simp: wellPlaced_renderCodeBlock)
next
  case (5 header rows ctx)
  then show ?case by (auto simp: wellPlaced_renderTable)
next
  case (6 inner ctx)
  then show ?case by (auto split: prod.splits intro: wellPlaced_blockquote)
next
  case (7 ctx)
  then show ?case by (auto simp: wellPlaced_def)
next
  case (9 token inline ctx)
  then show ?case by (auto split: prod.splits dest: wellPlaced_renderImage)
next
  case (10 inline ctx)
  then show ?case by (auto simp: wellPlaced_def)
next
  case (12 ctx)
  then show ?case by (auto simp: wellPlaced_Nil)
next
  case (13 t ts ctx)
  obtain r c1 where r: "renderBlockToken t ctx = (r, c1)" by (cases "renderBlockToken t ctx")
  obtain cs c2 where cs: "renderBlockTokens ts c1 = (cs, c2)" by (cases "renderBlockTokens ts c1")
  from "13.IH"(1) [OF r] have h1: "case r of Some c \<Rightarrow> wellPlaced [c] | None \<Rightarrow> True" .
  from "13.IH"(2) [OF r [symmetric] cs] have h2: "wellPlaced cs" .
  from "13.prems" r cs have "content = (case r of Some c \<Rightarrow> c # cs | None \<Rightarrow> cs)" by simp
  with h1 h2 show ?case by (cases r) (auto intro: wellPlaced_Cons)
qed auto

lemma wellPlaced_renderTokens: "wellPlaced (fst (renderTokens tokens ctx))"
  using wellPlaced_render(2) [of tokens ctx "fst (renderTokens tokens ctx)" "snd (renderTokens tokens ctx)"]
  by (simp add: renderTokens_def)

text \<open>
  C9. The fit box of the height computation, \<open>(IMAGE_FIT_WIDTH, IMAGE_FIT_HEIGHT) =
  (500, 400)\<close>, is the \<open>fit\<close> that \<open>renderImage\<close> attaches to the image node it
  builds, and every image node of a rendered content tree carries it.
\<close>

theorem fit_box_agrees:
  "fst (renderImage token ctx) =
     Image \<lparr>imageId = ''img_'' @ natToString (length (images ctx)),
            fit = (IMAGE_FIT_WIDTH, IMAGE_FIT_HEIGHT), margin = STYLES_margins_image\<rparr>
   \<and> list_all fitsBox (allImageNodes (fst (renderTokens tokens ctx')))
   \<and> (IMAGE_FIT_WIDTH, IMAGE_FIT_HEIGHT) = (500, 400)"
  using wellPlaced_renderTokens [of tokens ctx']
  by (simp add: renderImage_def Let_def IMAGE_FIT_WIDTH_def IMAGE_FIT_HEIGHT_def wellPlaced_def)

theorem fit_box_agrees_witness:
  "list_all fitsBox (allImageNodes (fst (renderTokens
       [HeadingToken 1 [], ParagraphToken [ImageTok \<lparr>tokenHref = ''a.png'', tokenText = ''a''\<rparr> None],
        BlockquoteToken [ImageTok \<lparr>tokenHref = ''b.jpg'', tokenText = ''b''\<rparr> None]]
       \<lparr>basePath = ''.'', japaneseFont = None, images = []\<rparr>)))
   \<and> allImageNodes (fst (renderTokens
       [HeadingToken 1 [], ParagraphToken [ImageTok \<lparr>tokenHref = ''a.png'', tokenText = ''a''\<rparr> None],
        BlockquoteToken [ImageTok \<lparr>tokenHref = ''b.jpg'', tokenText = ''b''\<rparr> None]]
       \<lparr>basePath = ''.'', japaneseFont = None, images = []\<rparr>))
     = [\<lparr>imageId = ''img_0'', fit = (500, 400), margin = (0, 10, 0, 10)\<rparr>,
        \<lparr>imageId = ''img_1'', fit = (500, 400), margin = (0, 10, 0, 10)\<rparr>]"
proof -
  have nodes: "allImageNodes (fst (renderTokens
       [HeadingToken 1 [], ParagraphToken [ImageTok \<lparr>tokenHref = ''a.png'', tokenText = ''a''\<rparr> None],
        BlockquoteToken [ImageTok \<lparr>tokenHref = ''b.jpg'', tokenText = ''b''\<rparr> None]]
       \<lparr>basePath = ''.'', japaneseFont = None, images = []\<rparr>))
     = [\<lparr>imageId = ''img_0'', fit = (500, 400), margin = (0, 10, 0, 10)\<rparr>,
        \<lparr>imageId = ''img_1'', fit = (500, 400), margin = (0, 10, 0, 10)\<rparr>]"
    by (simp add: renderTokens_def renderParagraph_def renderImage_def natToString.simps
          STYLES_margins_image_def Let_def)
  from fit_box_agrees [of _ _
       "[HeadingToken 1 [], ParagraphToken [ImageTok \<lparr>tokenHref = ''a.png'', tokenText = ''a''\<rparr> None],
        BlockquoteToken [ImageTok \<lparr>tokenHref = ''b.jpg'', tokenText = ''b''\<rparr> None]]"
       "\<lparr>basePath = ''.'', japaneseFont = None, images = []\<rparr>"]
  have "list_all fitsBox (allImageNodes (fst (renderTokens
       [HeadingToken 1 [], ParagraphToken [ImageTok \<lparr>tokenHref = ''a.png'', tokenText = ''a''\<rparr> None],
        BlockquoteToken [ImageTok \<lparr>tokenHref = ''b.jpg'', tokenText = ''b''\<rparr> None]]
       \<lparr>basePath = ''.'', japaneseFont = None, images = []\<rparr>)))"
    by (rule conjunct2 [THEN conjunct1])
  with nodes show ?thesis by (rule_tac conjI)
qed

lemma rendered_images_stacked:
  "map imageId (allImageNodes (fst (renderTokens tokens ctx))) = stackedImages (fst (renderTokens tokens ctx))"
  using wellPlaced_renderTokens [of tokens ctx] by (simp add: wellPlaced_def)

section \<open>Footprints: the claims\<close>

text \<open>
  C5 (as amended). For every content tree and every image node at top level or nested
  below \<open>stack\<close> and \<open>columns\<close> nodes, if the pixel dimensions of its image are known,
  the footprint map holds for it the rendered height of the fit rule plus the top and
  bottom image margins (10 each). In a rendered content tree every image node is such a
  node.
\<close>

theorem footprints_of_stacked_images:
  assumes "ident \<in> set (stackedImages content)" and "imageDimensions ident = Some dims"
  shows "map_of (calculateImageHeights content imageDimensions) ident
           = Some (calculateImageHeight dims + 10 + 10)
         \<and> map imageId (allImageNodes (fst (renderTokens tokens ctx)))
           = stackedImages (fst (renderTokens tokens ctx))"
  using assms by (simp add: calculateImageHeights_def map_of_processContent rendered_images_stacked)

theorem footprints_of_stacked_images_witness:
  "''img_0'' \<in> set (stackedImages
       [Text, Stack [Columns [Canvas, Stack [Image \<lparr>imageId = ''img_0'', fit = (500, 400), margin = (0, 10, 0, 10)\<rparr>]]]])
   \<and> [''img_0'' \<mapsto> \<lparr>width = 1000, height = 500\<rparr>] ''img_0'' = Some \<lparr>width = 1000, height = 500\<rparr>
   \<and> map_of (calculateImageHeights
         [Text, Stack [Columns [Canvas, Stack [Image \<lparr>imageId = ''img_0'', fit = (500, 400), margin = (0, 10, 0, 10)\<rparr>]]]]
         [''img_0'' \<mapsto> \<lparr>width = 1000, height = 500\<rparr>]) ''img_0'' = Some 270"
  using footprints_of_stacked_images [of "''img_0''"
         "[Text, Stack [Columns [Canvas, Stack [Image \<lparr>imageId = ''img_0'', fit = (500, 400), margin = (0, 10, 0, 10)\<rparr>]]]]"
         "[''img_0'' \<mapsto> \<lparr>width = 1000, height = 500\<rparr>]" "\<lparr>width = 1000, height = 500\<rparr>"]
  by (simp add: calculateImageHeight_def js_div_def IMAGE_FIT_WIDTH_def IMAGE_FIT_HEIGHT_def)

text \<open>
  C5 as stated fails for an image node inside a list: its dimensions are known, and the
  footprint map stays empty.
\<close>

theorem list_image_not_counted:
  "allImageNodes [Ul [Image \<lparr>imageId = ''img_0'', fit = (500, 400), margin = (0, 10, 0, 10)\<rparr>]]
     = [\<lparr>imageId = ''img_0'', fit = (500, 400), margin = (0, 10, 0, 10)\<rparr>]
   \<and> [''img_0'' \<mapsto> \<lparr>width = 1000, height = 500\<rparr>] ''img_0'' = Some \<lparr>width = 1000, height = 500\<rparr>
   \<and> calculateImageHeights [Ul [Image \<lparr>imageId = ''img_0'', fit = (500, 400), margin = (0, 10, 0, 10)\<rparr>]]
        [''img_0'' \<mapsto> \<lparr>width = 1000, height = 500\<rparr>] = []"
  by (simp add: calculateImageHeights_def)

text \<open>
  C3. For a content tree without image nodes the corrected extent is the measured
  \<open>maxExtent\<close>, whatever the measurement recorded, and the target page height is
  \<open>topMargin + maxExtent + bottomMargin + 25\<close>.
\<close>

theorem no_images_target_height:
  assumes "allImageNodes content = []"
  shows "contentHeight measurement (calculateImageHeights content imageDimensions) = resultMaxY measurement
         \<and> generatePDF_targetHeight content pageMargins imageDimensions observed =
             margin1 pageMargins + resultMaxY (measureContentHeight pageMargins observed)
               + margin3 pageMargins + 25"
  using calculateImageHeights_no_images [OF assms]
  by (simp add: generatePDF_targetHeight_def contentHeight_def determineContentHeight_def
        totalImageHeight_def targetHeight_def Let_def)

theorem no_images_target_height_witness:
  "allImageNodes [Text, Stack [Text, Canvas], Ul [Text], Table [ [Text, Text] ]] = []
   \<and> generatePDF_targetHeight [Text, Stack [Text, Canvas], Ul [Text], Table [ [Text, Text] ]]
        (40, 40, 40, 40) Map.empty
        [\<lparr>startPosition = Some \<lparr>pageNumber = 1, topOffset = 40\<rparr>, nodeImage = None, nodeHeight = Some 17\<rparr>]
       = 40 + 57 + 40 + 25"
proof -
  have h: "allImageNodes [Text, Stack [Text, Canvas], Ul [Text], Table [ [Text, Text] ]] = []"
    by simp
  have m: "resultMaxY (measureContentHeight (40, 40, 40, 40)
        [\<lparr>startPosition = Some \<lparr>pageNumber = 1, topOffset = 40\<rparr>, nodeImage = None, nodeHeight = Some 17\<rparr>]) = 57"
    by (simp add: measureContentHeight_def pageBreakBefore_def nodeBottom_def Let_def)
  show ?thesis
    using no_images_target_height [OF h, of _ Map.empty "(40, 40, 40, 40)"
        "[\<lparr>startPosition = Some \<lparr>pageNumber = 1, topOffset = 40\<rparr>, nodeImage = None, nodeHeight = Some 17\<rparr>]"]
    by (simp add: m margin1_def margin3_def)
qed

section \<open>Termination of the JPEG scan\<close>

lemma jpegBody_advances: "jpegBody view offset = Next offset' \<Longrightarrow> offset + 2 \<le> offset'"
  by (auto simp: jpegBody_def Let_def split: sum.splits if_splits)

lemma jpegWhile_jpegScan: "jpegWhile view offset = Some (jpegScan view offset)"
proof (induction view offset rule: jpegScan.induct)
  case (1 view offset)
  show ?case
  proof (cases "offset < length view")
    case False
    then show ?thesis by (subst jpegWhile.simps, subst jpegScan.simps) simp
  next
    case True
    show ?thesis
    proof (cases "jpegBody view offset")
      case (Next offset')
      with True 1 show ?thesis by (subst jpegWhile.simps, subst jpegScan.simps) simp
    next
      case (Leave r)
      with True show ?thesis by (subst jpegWhile.simps, subst jpegScan.simps) simp
    qed
  qed
qed

text \<open>
  C10. The marker scan of the JPEG parser ends on every buffer and from every offset,
  whatever the length fields of the segments are (also zero): the loop leaves with an
  outcome after finitely many passes.
\<close>

theorem jpeg_scan_terminates: "\<exists>r. jpegWhile view offset = Some r"
proof (induction "length view - offset" arbitrary: offset rule: less_induct)
  case less
  show ?case
  proof (cases "offset < length view")
    case False
    then show ?thesis by (subst jpegWhile.simps) simp
  next
    case True
    show ?thesis
    proof (cases "jpegBody view offset")
      case (Leave r)
      with True show ?thesis by (subst jpegWhile.simps) simp
    next
      case (Next offset')
      then have "offset + 2 \<le> offset'" by (rule jpegBody_advances)
      with True have "length view - offset' < length view - offset" by arith
      then obtain r where "jpegWhile view offset' = Some r" using less by blast
      with True Next show ?thesis by (subst jpegWhile.simps) simp
    qed
  qed
qed

lemma getUint16_bound: "getUint16 view off = Inr v \<Longrightarrow> v < 65536"
proof -
  assume a: "getUint16 view off = Inr v"
  have "unat (view ! off) < 256" "unat (view ! (off + 1)) < 256"
    using unsigned_less [where ?'a = nat, of "view ! off"] unsigned_less [where ?'a = nat, of "view ! (off + 1)"] by simp_all
  with a show ?thesis by (auto simp: getUint16_def split: if_splits)
qed

lemma getUint32_bound: "getUint32 view off = Inr v \<Longrightarrow> v < 4294967296"
proof -
  assume a: "getUint32 view off = Inr v"
  have "unat (view ! off) < 256" "unat (view ! (off + 1)) < 256"
       "unat (view ! (off + 2)) < 256" "unat (view ! (off + 3)) < 256"
    using unsigned_less [where ?'a = nat, of "view ! off"] unsigned_less [where ?'a = nat, of "view ! (off + 1)"]
          unsigned_less [where ?'a = nat, of "view ! (off + 2)"] unsigned_less [where ?'a = nat, of "view ! (off + 3)"] by simp_all
  with a show ?thesis by (auto simp: getUint32_def split: if_splits)
qed

lemma png_unsigned: "getPngDimensions buffer = Inr (Some d) \<Longrightarrow> unsigned32 d"
  by (auto simp: getPngDimensions_def unsigned32_def split: sum.splits if_splits
           dest!: getUint32_bound)

lemma jpegBody_unsigned: "jpegBody view offset = Leave (Inr (Some d)) \<Longrightarrow> unsigned32 d"
  by (auto simp: jpegBody_def Let_def unsigned32_def split: sum.splits if_splits
           dest!: getUint16_bound)

lemma jpegScan_unsigned: "jpegScan view offset = Inr (Some d) \<Longrightarrow> unsigned32 d"
proof (induction view offset rule: jpegScan.induct)
  case (1 view offset)
  from "1.prems" have lt: "offset < length view"
    by (subst (asm) jpegScan.simps) (auto split: if_splits)
  show ?case
  proof (cases "jpegBody view offset")
    case (Next offset')
    with lt "1.prems" have "jpegScan view offset' = Inr (Some d)"
      by (subst (asm) jpegScan.simps) simp
    with lt Next "1.IH" show ?thesis by simp
  next
    case (Leave r)
    with lt "1.prems" have "r = Inr (Some d)"
      by (subst (asm) jpegScan.simps) simp
    with Leave show ?thesis by (simp add: jpegBody_unsigned)
  qed
qed

lemma jpeg_unsigned: "getJpegDimensions buffer = Inr (Some d) \<Longrightarrow> unsigned32 d"
  by (auto simp: getJpegDimensions_def split: sum.splits if_splits dest: jpegScan_unsigned)

lemma parser_unsigned: "getImageDimensions buffer mimeType = Inr (Some d) \<Longrightarrow> unsigned32 d"
  by (auto simp: getImageDimensions_def split: if_splits dest: png_unsigned jpeg_unsigned)

lemma zero_height_renders_zero: "height d = 0 \<Longrightarrow> calculateImageHeight d = 0"
  by (simp add: calculateImageHeight_def js_div_def Let_def IMAGE_FIT_HEIGHT_def)


section \<open>Outcomes of the header parser\<close>

lemma error_RangeError: "(e :: error) = RangeError"
  by (cases e) simp

lemma png_raises:
  "(getPngDimensions buffer = Inl RangeError) =
     (length buffer < 4 \<or> (getUint32 buffer 0 = Inr 0x89504e47 \<and> length buffer < 24))"
  by (auto simp: getPngDimensions_def getUint32_def split: sum.splits if_splits)

lemma png_none:
  "(getPngDimensions buffer = Inr None) =
     (4 \<le> length buffer \<and> getUint32 buffer 0 \<noteq> Inr 0x89504e47)"
  by (auto simp: getPngDimensions_def getUint32_def split: sum.splits if_splits)

lemma jpeg_cases:
  "getJpegDimensions buffer =
     (if length buffer < 2 then Inl RangeError
      else if getUint16 buffer 0 \<noteq> Inr 0xffd8 then Inr None
      else jpegScan buffer 2)"
  by (auto simp: getJpegDimensions_def getUint16_def error_RangeError split: sum.splits if_splits)

text \<open>
  C4 (as amended). For every buffer and declared MIME type the parser returns
  dimensions, no result, or throws \<open>RangeError\<close> for a read outside the buffer. The PNG
  path throws exactly when the buffer has fewer than 4 bytes, or carries the signature
  and has fewer than 24 bytes, and yields no result exactly when the signature read
  succeeds and mismatches. The JPEG path throws on fewer than 2 bytes, yields no result
  on a signature mismatch and otherwise scans the markers. An unsupported MIME type
  yields no result. The loader returns \<open>null\<close> for the image exactly when the parser
  throws.
\<close>

theorem header_parser_outcomes:
  "(getImageDimensions buffer ''image/png'' = Inl RangeError) =
       (length buffer < 4 \<or> (getUint32 buffer 0 = Inr 0x89504e47 \<and> length buffer < 24))
   \<and> (getImageDimensions buffer ''image/png'' = Inr None) =
       (4 \<le> length buffer \<and> getUint32 buffer 0 \<noteq> Inr 0x89504e47)
   \<and> getImageDimensions buffer ''image/jpeg'' =
       (if length buffer < 2 then Inl RangeError
        else if getUint16 buffer 0 \<noteq> Inr 0xffd8 then Inr None
        else jpegScan buffer 2)
   \<and> (mimeType \<noteq> ''image/png'' \<and> mimeType \<noteq> ''image/jpeg''
        \<longrightarrow> getImageDimensions buffer mimeType = Inr None)
   \<and> (loadImageBytes ident buffer mimeType = None) =
       (getImageDimensions buffer mimeType = Inl RangeError)"
proof -
  have load: "(loadImageBytes ident buffer mimeType = None) =
       (getImageDimensions buffer mimeType = Inl RangeError)"
    by (auto simp: loadImageBytes_def error_RangeError split: sum.splits)
  show ?thesis
    by (simp add: getImageDimensions_def png_raises png_none jpeg_cases [symmetric] load)
qed

theorem header_parser_outcomes_witness:
  "''image/gif'' \<noteq> ''image/png'' \<and> ''image/gif'' \<noteq> ''image/jpeg''
   \<and> getImageDimensions
        [0x89, 0x50, 0x4e, 0x47, 0x0d, 0x0a, 0x1a, 0x0a, 0, 0, 0, 13, 0x49, 0x48, 0x44, 0x52,
         0, 0, 3, 0x20, 0, 0, 2] ''image/gif'' = Inr None
   \<and> getImageDimensions
        [0x89, 0x50, 0x4e, 0x47, 0x0d, 0x0a, 0x1a, 0x0a, 0, 0, 0, 13, 0x49, 0x48, 0x44, 0x52,
         0, 0, 3, 0x20, 0, 0, 2] ''image/png'' = Inl RangeError
   \<and> loadImageBytes ''img_0''
        [0x89, 0x50, 0x4e, 0x47, 0x0d, 0x0a, 0x1a, 0x0a, 0, 0, 0, 13, 0x49, 0x48, 0x44, 0x52,
         0, 0, 3, 0x20, 0, 0, 2] ''image/png'' = None"
proof -
  have sig: "getUint32 [0x89, 0x50, 0x4e, 0x47, 0x0d, 0x0a, 0x1a, 0x0a, 0, 0, 0, 13, 0x49, 0x48, 0x44, 0x52,
         0, 0, 3, 0x20, 0, 0, 2] 0 = Inr 0x89504e47"
    by (simp add: getUint32_def)
  show ?thesis
    using header_parser_outcomes [of
        "[0x89, 0x50, 0x4e, 0x47, 0x0d, 0x0a, 0x1a, 0x0a, 0, 0, 0, 13, 0x49, 0x48, 0x44, 0x52,
         0, 0, 3, 0x20, 0, 0, 2]" "''image/gif''" "''img_0''"]
          header_parser_outcomes [of
        "[0x89, 0x50, 0x4e, 0x47, 0x0d, 0x0a, 0x1a, 0x0a, 0, 0, 0, 13, 0x49, 0x48, 0x44, 0x52,
         0, 0, 3, 0x20, 0, 0, 2]" "''image/png''" "''img_0''"]
    by (simp add: sig)
qed

text \<open>
  C4 as stated fails on truncated buffers: the empty buffer, a PNG header cut after 23
  bytes, and JPEG streams cut inside a marker or inside a frame header throw.
\<close>

theorem truncated_buffer_throws:
  "getImageDimensions [] ''image/png'' = Inl RangeError
   \<and> getImageDimensions
        [0x89, 0x50, 0x4e, 0x47, 0x0d, 0x0a, 0x1a, 0x0a, 0, 0, 0, 13, 0x49, 0x48, 0x44, 0x52,
         0, 0, 3, 0x20, 0, 0, 2] ''image/png'' = Inl RangeError
   \<and> getImageDimensions [0xff, 0xd8, 0xff] ''image/jpeg'' = Inl RangeError
   \<and> getImageDimensions [0xff, 0xd8, 0xff, 0xc0, 0, 0x11, 8, 1, 0x40] ''image/jpeg'' = Inl RangeError"
  by (simp add: getImageDimensions_def getPngDimensions_def getJpegDimensions_def
        getUint32_def getUint16_def jpegScan.simps jpegBody_def isSOF_def)

lemma fitRuleCalls_ran:
  "set (fitRuleCallsOf imageDimensions item) \<subseteq> ran imageDimensions"
  "set (fitRuleCalls imageDimensions items) \<subseteq> ran imageDimensions"
  by (induction imageDimensions item and imageDimensions items rule: fitRuleCallsOf_fitRuleCalls.induct)
     (auto simp: ran_def split: option.splits)

lemma loadImages_dimensions_ran:
  assumes "\<And>d. d \<in> ran acc \<Longrightarrow> P d"
    and "\<And>img d. Some img \<in> set loaded \<Longrightarrow> dataDimensions img = Some d \<Longrightarrow> P d"
    and "d \<in> ran (loadImages_dimensions loaded acc)"
  shows "P d"
  using assms
proof (induction loaded acc rule: loadImages_dimensions.induct)
  case (1 acc)
  then show ?case by simp
next
  case (2 loadedImages acc)
  then show ?case by simp
next
  case (3 img loadedImages acc)
  show ?case
  proof (rule "3.IH")
    fix d' assume d': "d' \<in> ran (case dataDimensions img of None \<Rightarrow> acc | Some d \<Rightarrow> acc(dataId img \<mapsto> d))"
    show "P d'"
    proof (cases "dataDimensions img")
      case None
      with d' "3.prems"(1) show ?thesis by simp
    next
      case (Some d0)
      with d' have "d' \<in> ran (acc(dataId img \<mapsto> d0))" by simp
      then have "d' = d0 \<or> d' \<in> ran acc"
        by (auto simp: ran_def split: if_splits)
      with Some "3.prems"(1,2) show ?thesis by auto
    qed
  next
    fix img' d' assume "Some img' \<in> set loadedImages" "dataDimensions img' = Some d'"
    with "3.prems"(2) show "P d'" by auto
  next
    from "3.prems"(3) show "d \<in> ran (loadImages_dimensions loadedImages
        (case dataDimensions img of None \<Rightarrow> acc | Some d \<Rightarrow> acc(dataId img \<mapsto> d)))" by simp
  qed
qed

text \<open>
  C7 (as amended). Every dimension record that reaches the fit rule comes from the
  header parser and holds unsigned integers below \<open>2^32\<close>: no negative and no
  non-finite dimension is passed on. A pixel height of zero is not rejected; for it the
  fit rule yields the rendered height 0.
\<close>

theorem parsed_dimensions_unsigned:
  assumes "d \<in> set (fitRuleCalls
              (loadImages_dimensions
                 (map (\<lambda>(ident, buffer, mimeType). loadImageBytes ident buffer mimeType) files)
                 Map.empty)
              content)"
  shows "0 \<le> width d \<and> width d < 4294967296 \<and> 0 \<le> height d \<and> height d < 4294967296
         \<and> (height d = 0 \<longrightarrow> calculateImageHeight d = 0)"
proof -
  let ?loaded = "map (\<lambda>(ident, buffer, mimeType). loadImageBytes ident buffer mimeType) files"
  from assms fitRuleCalls_ran(2) have ran: "d \<in> ran (loadImages_dimensions ?loaded Map.empty)"
    by blast
  have "unsigned32 d"
  proof (rule loadImages_dimensions_ran [where P = unsigned32, OF _ _ ran])
    fix d' :: ImageDimensions assume "d' \<in> ran Map.empty"
    then show "unsigned32 d'" by simp
  next
    fix img d' assume "Some img \<in> set ?loaded" and dd: "dataDimensions img = Some d'"
    then obtain ident buffer mimeType where "loadImageBytes ident buffer mimeType = Some img"
      by auto
    with dd have "getImageDimensions buffer mimeType = Inr (Some d')"
      by (auto simp: loadImageBytes_def split: sum.splits)
    then show "unsigned32 d'" by (rule parser_unsigned)
  qed
  then show ?thesis by (simp add: unsigned32_def zero_height_renders_zero)
qed

text \<open>
  C7 as stated fails: a JPEG frame header with width 400 and height 0 is parsed, stored
  and handed to the fit rule, where the quotient \<open>400 / 0\<close> is \<open>Infinity\<close>.
\<close>

theorem zero_height_is_passed_on:
  "fitRuleCalls
     (loadImages_dimensions
        [loadImageBytes ''img_0''
           [0xff, 0xd8, 0xff, 0xc0, 0x00, 0x11, 0x08, 0x00, 0x00, 0x01, 0x90, 0x03] ''image/jpeg'']
        Map.empty)
     [Image \<lparr>imageId = ''img_0'', fit = (500, 400), margin = (0, 10, 0, 10)\<rparr>]
   = [\<lparr>width = 400, height = 0\<rparr>]
   \<and> js_div (of_int (width \<lparr>width = 400, height = 0\<rparr>)) (of_int (height \<lparr>width = 400, height = 0\<rparr>))
     = PosInfinity"
  by (simp add: loadImageBytes_def getImageDimensions_def getJpegDimensions_def getUint16_def
        jpegScan.simps jpegBody_def isSOF_def js_div_def)

theorem parsed_dimensions_unsigned_witness:
  "\<lparr>width = 1, height = 0\<rparr> \<in> set (fitRuleCalls
              (loadImages_dimensions
                 (map (\<lambda>(ident, buffer, mimeType). loadImageBytes ident buffer mimeType)
                   [(''img_0'', [0x89, 0x50, 0x4e, 0x47, 0x0d, 0x0a, 0x1a, 0x0a, 0, 0, 0, 13, 0x49, 0x48, 0x44, 0x52,
                       0, 0, 0, 1, 0, 0, 0, 0], ''image/png'')])
                 Map.empty)
              [Image \<lparr>imageId = ''img_0'', fit = (500, 400), margin = (0, 10, 0, 10)\<rparr>])
   \<and> height \<lparr>width = 1, height = 0\<rparr> = 0
   \<and> calculateImageHeight \<lparr>width = 1, height = 0\<rparr> = 0"
proof -
  have mem: "\<lparr>width = 1, height = 0\<rparr> \<in> set (fitRuleCalls
              (loadImages_dimensions
                 (map (\<lambda>(ident, buffer, mimeType). loadImageBytes ident buffer mimeType)
                   [(''img_0'', [0x89, 0x50, 0x4e, 0x47, 0x0d, 0x0a, 0x1a, 0x0a, 0, 0, 0, 13, 0x49, 0x48, 0x44, 0x52,
                       0, 0, 0, 1, 0, 0, 0, 0], ''image/png'')])
                 Map.empty)
              [Image \<lparr>imageId = ''img_0'', fit = (500, 400), margin = (0, 10, 0, 10)\<rparr>])"
    by (simp add: loadImageBytes_def getImageDimensions_def getPngDimensions_def getUint32_def)
  from parsed_dimensions_unsigned [OF mem] mem show ?thesis by simp
qed

end
